theory Spec2Isabelle
  imports Main "HOL-Library.AList"
begin

section \<open>The environment of metagpt/environment.py\<close>

text \<open>
  The class \<open>Environment\<close> holds two dictionaries: \<open>roles\<close>, from a profile string to a
  \<open>Role\<close> object, and \<open>consumers\<close>, from a \<open>Role\<close> object to the set of tags it subscribes
  to. Role objects are shared between the two dictionaries and are mutated in place
  (\<open>set_env\<close>, \<open>put_message\<close>), so a role is a reference into an explicit store, and
  the keys of \<open>consumers\<close> are these references (a role is hashed by its identity).
  A Python dictionary keeps its keys in insertion order and assigning to a key that is
  already there keeps its position: it is an association list with distinct keys.
\<close>

subsection \<open>Collaborators\<close>

type_synonym ref = nat

type_synonym tag = string

text \<open>
  Modelled from the spec: the class \<open>Message\<close> of metagpt.schema, which is not part of
  the sources. Its contract is \<open>dump() -> string\<close>, the representation that is logged, and
  \<open>isRecipient(tagSet) -> bool\<close>, a pure predicate. Both are fields of the message.
\<close>

record message =
  dump :: string
  is_recipient :: "tag set \<Rightarrow> bool"

text \<open>
  Modelled from the spec: the class \<open>Role\<close> of metagpt.roles, which is not part of the
  sources. Its capability set is \<open>profile\<close>, \<open>setEnv(env)\<close>, the flag \<open>isIdle\<close>,
  \<open>putMessage(message)\<close> (delivery into the inbox), \<open>subscribedTags\<close> and \<open>run()\<close>.
  \<open>has_env\<close> says that the back-reference to the environment is installed.
\<close>

record role =
  profile :: string
  subscribed_tags :: "tag set"
  role_is_idle :: bool
  inbox :: "message list"
  has_env :: bool

text \<open>
  Modelled from the spec: \<open>Role.set_env\<close>, which installs the back-reference to the
  hosting environment.
\<close>

definition set_env :: "role \<Rightarrow> role" where
  "set_env r = r\<lparr>has_env := True\<rparr>"

text \<open>
  Modelled from the spec: \<open>Role.put_message\<close>, which stores the message in the inbox of
  the role for it to consume later.
\<close>

definition put_message :: "role \<Rightarrow> message \<Rightarrow> role" where
  "put_message r m = r\<lparr>inbox := inbox r @ [m]\<rparr>"

text \<open>The lines handed to the logger.\<close>

datatype log_entry = Info string | Warning string

text \<open>
  What the environment's own code does to its collaborators, in order: a line given to
  the logger, a call of \<open>role.run()\<close> (which creates the awaitable and runs nothing yet),
  and the \<open>await asyncio.gather(...)\<close> of a list of such awaitables.
\<close>

datatype event = Log log_entry | Call ref | Await "ref list"

datatype error = ActorFailure string

subsection \<open>State\<close>

text \<open>
  The two fields of \<open>Environment\<close>, and the store of the role objects they refer to.
  Every reference denotes an object, as in Python.
\<close>

record world =
  roles :: "(string \<times> ref) list"
  consumers :: "(ref \<times> tag set) list"
  heap :: "ref \<Rightarrow> role"

text \<open>\<open>d[k] = v\<close> on a dictionary, and \<open>d.get(k)\<close>.\<close>

definition dict_set :: "('k \<times> 'v) list \<Rightarrow> 'k \<Rightarrow> 'v \<Rightarrow> ('k \<times> 'v) list" where
  "dict_set d k v = AList.update k v d"

definition dict_get :: "('k \<times> 'v) list \<Rightarrow> 'k \<Rightarrow> 'v option" where
  "dict_get d k = map_of d k"

definition dict_values :: "('k \<times> 'v) list \<Rightarrow> 'v list" where
  "dict_values d = map snd d"

text \<open>A dictionary has no key twice.\<close>

definition dict_ok :: "('k \<times> 'v) list \<Rightarrow> bool" where
  "dict_ok d = distinct (map fst d)"

text \<open>Both fields default to the empty dictionary (\<open>Field(default_factory=dict)\<close>).\<close>

definition new_environment :: "(ref \<Rightarrow> role) \<Rightarrow> world" where
  "new_environment h = \<lparr>roles = [], consumers = [], heap = h\<rparr>"

subsection \<open>Operations\<close>

definition set_subscribed_tags :: "world \<Rightarrow> ref \<Rightarrow> tag set \<Rightarrow> world" where
  "set_subscribed_tags w obj tags = w\<lparr>consumers := dict_set (consumers w) obj tags\<rparr>"

text \<open>
  \<open>self.consumers.get(obj, {})\<close>: the default \<open>{}\<close> is Python's empty dictionary, not a
  set, so the result is either a stored tag set or that empty dictionary.
\<close>

datatype tags_value = Tags "tag set" | EmptyDict

definition get_subscribed_tags :: "world \<Rightarrow> ref \<Rightarrow> tags_value" where
  "get_subscribed_tags w obj =
     (case dict_get (consumers w) obj of None \<Rightarrow> EmptyDict | Some t \<Rightarrow> Tags t)"

definition add_role :: "world \<Rightarrow> ref \<Rightarrow> world" where
  "add_role w r =
     (let w1 = w\<lparr>heap := (heap w)(r := set_env (heap w r))\<rparr>;
          w2 = w1\<lparr>roles := dict_set (roles w1) (profile (heap w1 r)) r\<rparr>
      in set_subscribed_tags w2 r (subscribed_tags (heap w2 r)))"

fun add_roles :: "world \<Rightarrow> ref list \<Rightarrow> world" where
  "add_roles w [] = w"
| "add_roles w (r # rs) = add_roles (add_role w r) rs"

text \<open>
  The loop of \<open>publish_message\<close> over \<open>self.consumers.items()\<close>, carrying the store and the
  flag \<open>found\<close>.
\<close>

fun publish_loop ::
  "message \<Rightarrow> (ref \<times> tag set) list \<Rightarrow> (ref \<Rightarrow> role) \<times> bool \<Rightarrow> (ref \<Rightarrow> role) \<times> bool" where
  "publish_loop m [] (h, found) = (h, found)"
| "publish_loop m ((obj, tgs) # rest) (h, found) =
     (if is_recipient m tgs
      then publish_loop m rest (h(obj := put_message (h obj) m), True)
      else publish_loop m rest (h, found))"

text \<open>The result is the returned boolean, the lines logged, and the state.\<close>

definition publish_message :: "world \<Rightarrow> message \<Rightarrow> bool \<times> log_entry list \<times> world" where
  "publish_message w m =
     (let l1 = [Info (''publish_message: '' @ dump m)];
          (h, found) = publish_loop m (consumers w) (heap w, False);
          l2 = (if \<not> found then l1 @ [Warning (''Message no recipients: '' @ dump m)] else l1)
      in (True, l2, w\<lparr>heap := h\<rparr>))"

definition get_roles :: "world \<Rightarrow> (string \<times> ref) list" where
  "get_roles w = roles w"

text \<open>\<open>self.roles.get(name, None)\<close>: the result \<open>None\<close> is Python's \<open>None\<close>.\<close>

definition get_role :: "world \<Rightarrow> string \<Rightarrow> ref option" where
  "get_role w name = dict_get (roles w) name"

fun is_idle_loop :: "(ref \<Rightarrow> role) \<Rightarrow> ref list \<Rightarrow> bool" where
  "is_idle_loop h [] = True"
| "is_idle_loop h (r # rs) = (if \<not> role_is_idle (h r) then False else is_idle_loop h rs)"

definition is_idle :: "world \<Rightarrow> bool" where
  "is_idle w = is_idle_loop (heap w) (dict_values (roles w))"

text \<open>
  \<open>Role.run\<close> is not part of the sources, and what the awaited batch does is the work of
  the actors, not of the environment. It is a parameter: given the roles whose
  awaitables are gathered and the state, the outcome of the \<open>await\<close> (the exception
  it raises, if any) and the state when it returns.
\<close>

type_synonym gather = "ref list \<Rightarrow> world \<Rightarrow> error option \<times> world"

definition str_bool :: "bool \<Rightarrow> string" where
  "str_bool b = (if b then ''True'' else ''False'')"

text \<open>
  The loop \<open>for _ in range(k)\<close> of \<open>run\<close>, with the rounds left as its counter. An
  exception raised by the \<open>await\<close> leaves the loop and \<open>run\<close>.
\<close>

fun run_rounds :: "gather \<Rightarrow> nat \<Rightarrow> world \<Rightarrow> error option \<times> event list \<times> world" where
  "run_rounds g 0 w = (None, [], w)"
| "run_rounds g (Suc n) w =
     (let futures = dict_values (roles w);
          ev = map Call futures @ [Await futures]
      in case g futures w of
           (Some e, w1) \<Rightarrow> (Some e, ev, w1)
         | (None, w1) \<Rightarrow>
             (case run_rounds g n w1 of
                (res, tr, w2) \<Rightarrow>
                  (res, ev @ Log (Info (''is idle: '' @ str_bool (is_idle w1))) # tr, w2)))"

text \<open>\<open>range(k)\<close> is empty for \<open>k \<le> 0\<close>; the default of \<open>k\<close> is 1.\<close>

definition run :: "gather \<Rightarrow> world \<Rightarrow> int \<Rightarrow> error option \<times> event list \<times> world" where
  "run g w k = run_rounds g (nat k) w"

subsection \<open>Sequences of operations\<close>

text \<open>The public operations that change the state, and a sequence of them run in order.\<close>

datatype op =
    AddRole ref
  | AddRoles "ref list"
  | SetSubscribedTags ref "tag set"
  | PublishMessage message
  | Run int

fun apply_op :: "gather \<Rightarrow> world \<Rightarrow> op \<Rightarrow> world" where
  "apply_op g w (AddRole r) = add_role w r"
| "apply_op g w (AddRoles rs) = add_roles w rs"
| "apply_op g w (SetSubscribedTags obj t) = set_subscribed_tags w obj t"
| "apply_op g w (PublishMessage m) = snd (snd (publish_message w m))"
| "apply_op g w (Run k) = snd (snd (run g w k))"

definition apply_ops :: "gather \<Rightarrow> world \<Rightarrow> op list \<Rightarrow> world" where
  "apply_ops g w ops = foldl (apply_op g) w ops"

subsection \<open>The properties of the specification\<close>

text \<open>
  The invariant of the data model, in the specification's words: every actor present in
  the registry has exactly one entry in the subscription table, and an actor has an entry
  in the subscription table only if it is registered.
\<close>

definition registry_has_one_entry :: "world \<Rightarrow> bool" where
  "registry_has_one_entry w =
     (\<forall>r \<in> set (dict_values (roles w)). length (filter (\<lambda>e. fst e = r) (consumers w)) = 1)"

definition subscribed_are_registered :: "world \<Rightarrow> bool" where
  "subscribed_are_registered w =
     (\<forall>a \<in> fst ` set (consumers w). a \<in> set (dict_values (roles w)))"

definition table_invariant :: "world \<Rightarrow> bool" where
  "table_invariant w = (registry_has_one_entry w \<and> subscribed_are_registered w)"

text \<open>
  What the operations do keep: \<open>consumers\<close> is a dictionary and holds a key for every
  registered role.
\<close>

definition tables_ok :: "world \<Rightarrow> bool" where
  "tables_ok w =
     (dict_ok (consumers w) \<and> set (dict_values (roles w)) \<subseteq> fst ` set (consumers w))"

text \<open>
  Assumptions on the work of the actors during an awaited batch: it keeps \<open>tables_ok\<close>
  (as it does when it touches the two dictionaries through the operations above only),
  it raises no exception, it leaves the registry as it is.
\<close>

definition keeps_tables_ok :: "gather \<Rightarrow> bool" where
  "keeps_tables_ok g = (\<forall>rs w. tables_ok w \<longrightarrow> tables_ok (snd (g rs w)))"






subsection \<open>Concrete states\<close>

text \<open>A store where every role has the profile Engineer, and one where every profile is empty.\<close>

definition h_same :: "ref \<Rightarrow> role" where
  "h_same = (\<lambda>_. \<lparr>profile = ''Engineer'', subscribed_tags = {''code''}, role_is_idle = True,
                   inbox = [], has_env = False\<rparr>)"

definition h_blank :: "ref \<Rightarrow> role" where
  "h_blank = (\<lambda>_. \<lparr>profile = [], subscribed_tags = {}, role_is_idle = True,
                   inbox = [], has_env = False\<rparr>)"

text \<open>An environment with an idle engineer and a busy architect.\<close>

definition h_team :: "ref \<Rightarrow> role" where
  "h_team r =
     (if r = 0 then \<lparr>profile = ''Engineer'', subscribed_tags = {''code''}, role_is_idle = True,
                     inbox = [], has_env = True\<rparr>
      else \<lparr>profile = ''Architect'', subscribed_tags = {''design''}, role_is_idle = False,
            inbox = [], has_env = True\<rparr>)"

definition w_team :: world where
  "w_team = \<lparr>roles = [(''Engineer'', 0), (''Architect'', 1)],
             consumers = [(0, {''code''}), (1, {''design''})],
             heap = h_team\<rparr>"

definition m_code :: message where
  "m_code = \<lparr>dump = ''write code'', is_recipient = (\<lambda>tgs. ''code'' \<in> tgs)\<rparr>"

definition m_test :: message where
  "m_test = \<lparr>dump = ''run tests'', is_recipient = (\<lambda>tgs. ''test'' \<in> tgs)\<rparr>"

text \<open>A batch after which every role is idle, and a batch that does nothing.\<close>

definition g_finish :: gather where
  "g_finish = (\<lambda>rs w. (None, w\<lparr>heap := (\<lambda>r. (heap w r)\<lparr>role_is_idle := True\<rparr>)\<rparr>))"

definition g_none :: gather where
  "g_none = (\<lambda>rs w. (None, w))"






section \<open>Dictionaries\<close>

lemma dict_ok_set: "dict_ok d \<Longrightarrow> dict_ok (dict_set d k v)"
  by (simp add: dict_ok_def dict_set_def distinct_update)

lemma dict_get_set: "dict_get (dict_set d k v) k' = (if k' = k then Some v else dict_get d k')"
  by (simp add: dict_get_def dict_set_def update_conv')

lemma dict_keys_set: "fst ` set (dict_set d k v) = insert k (fst ` set d)"
  by (simp add: dict_set_def dom_update)

lemma dict_get_in: "dict_ok d \<Longrightarrow> (k, v) \<in> set d \<Longrightarrow> dict_get d k = Some v"
  by (simp add: dict_ok_def dict_get_def)

lemma dict_get_None: "(dict_get d k = None) = (k \<notin> fst ` set d)"
  by (simp add: dict_get_def map_of_eq_None_iff)

lemma dict_get_SomeD: "dict_get d k = Some v \<Longrightarrow> (k, v) \<in> set d"
  by (simp add: dict_get_def map_of_SomeD)

text \<open>In a dictionary a key has one entry.\<close>

lemma entries_single:
  "dict_ok d \<Longrightarrow> (k, v) \<in> set d \<Longrightarrow> filter (\<lambda>e. fst e = k) d = [(k, v)]"
proof (induction d)
  case Nil
  then show ?case by simp
next
  case (Cons e d)
  show ?case
  proof (cases "fst e = k")
    case True
    with Cons.prems have "k \<notin> fst ` set d" by (simp add: dict_ok_def)
    then have none: "filter (\<lambda>e. fst e = k) d = []"
      by (auto simp: filter_empty_conv)
    from True Cons.prems have "e = (k, v)"
      by (cases e) (auto simp: dict_ok_def image_iff)
    with none show ?thesis by simp
  next
    case False
    with Cons show ?thesis by (auto simp: dict_ok_def)
  qed
qed

lemma entries_set:
  "dict_ok d \<Longrightarrow> filter (\<lambda>e. fst e = k) (dict_set d k v) = [(k, v)]"
  by (rule entries_single [OF dict_ok_set])
     (auto intro!: dict_get_SomeD simp: dict_get_set)

lemma dict_values_set: "set (dict_values (dict_set d k v)) \<subseteq> insert v (set (dict_values d))"
  unfolding dict_values_def dict_set_def
  by (induction d) auto

section \<open>Registration\<close>

lemma add_role_roles: "roles (add_role w r) = dict_set (roles w) (profile (heap w r)) r"
  by (simp add: add_role_def set_subscribed_tags_def set_env_def Let_def)

lemma add_role_consumers:
  "consumers (add_role w r) = dict_set (consumers w) r (subscribed_tags (heap w r))"
  by (simp add: add_role_def set_subscribed_tags_def set_env_def Let_def)

lemma add_role_heap: "heap (add_role w r) = (heap w)(r := set_env (heap w r))"
  by (simp add: add_role_def set_subscribed_tags_def Let_def)

lemma add_role_profile: "profile (heap (add_role w r) x) = profile (heap w x)"
  by (simp add: add_role_heap set_env_def)

lemma add_role_inbox: "inbox (heap (add_role w r) x) = inbox (heap w x)"
  by (simp add: add_role_heap set_env_def)

lemma add_role_subscribed_tags:
  "subscribed_tags (heap (add_role w r) x) = subscribed_tags (heap w x)"
  by (simp add: add_role_heap set_env_def)

section \<open>The loop of the router\<close>

lemma publish_loop_inbox:
  "inbox (fst (publish_loop m cs (h, f)) a) =
     inbox (h a) @ concat (map (\<lambda>e. if is_recipient m (snd e) then [m] else []) (filter (\<lambda>e. fst e = a) cs))"
  by (induction cs arbitrary: h f) (auto simp: put_message_def)

lemma publish_loop_found:
  "snd (publish_loop m cs (h, f)) = (f \<or> (\<exists>e \<in> set cs. is_recipient m (snd e)))"
proof (induction cs arbitrary: h f)
  case Nil
  show ?case by simp
next
  case (Cons e cs)
  obtain obj tgs where e: "e = (obj, tgs)" by (cases e)
  show ?case
  proof (cases "is_recipient m tgs")
    case True
    then show ?thesis by (simp add: e Cons.IH)
  next
    case False
    then show ?thesis by (simp add: e Cons.IH)
  qed
qed

lemma publish_loop_frame:
  "(fst (publish_loop m cs (h, f)) a)\<lparr>inbox := x\<rparr> = (h a)\<lparr>inbox := x\<rparr>"
proof (induction cs arbitrary: h f)
  case Nil
  show ?case by simp
next
  case (Cons e cs)
  obtain obj tgs where e: "e = (obj, tgs)" by (cases e)
  show ?case
  proof (cases "is_recipient m tgs")
    case True
    then show ?thesis by (simp add: e Cons.IH put_message_def)
  next
    case False
    then show ?thesis by (simp add: e Cons.IH)
  qed
qed

lemma publish_message_inbox:
  assumes "dict_ok (consumers w)" and "(a, t) \<in> set (consumers w)"
  shows "inbox (heap (snd (snd (publish_message w m))) a) =
           inbox (heap w a) @ (if is_recipient m t then [m] else [])"
proof -
  obtain h fo where pl: "publish_loop m (consumers w) (heap w, False) = (h, fo)"
    by (cases "publish_loop m (consumers w) (heap w, False)")
  have "inbox (h a) = inbox (fst (publish_loop m (consumers w) (heap w, False)) a)"
    by (simp add: pl)
  also have "\<dots> = inbox (heap w a) @ (if is_recipient m t then [m] else [])"
    by (simp add: publish_loop_inbox entries_single [OF assms])
  finally show ?thesis by (simp add: publish_message_def pl Let_def)
qed

lemma publish_message_tables:
  "roles (snd (snd (publish_message w m))) = roles w \<and>
   consumers (snd (snd (publish_message w m))) = consumers w"
  by (simp add: publish_message_def Let_def split: prod.splits)

lemma publish_message_frame:
  "(heap (snd (snd (publish_message w m))) a)\<lparr>inbox := x\<rparr> = (heap w a)\<lparr>inbox := x\<rparr>"
proof -
  obtain h fo where pl: "publish_loop m (consumers w) (heap w, False) = (h, fo)"
    by (cases "publish_loop m (consumers w) (heap w, False)")
  have "(h a)\<lparr>inbox := x\<rparr> = (fst (publish_loop m (consumers w) (heap w, False)) a)\<lparr>inbox := x\<rparr>"
    by (simp add: pl)
  also have "\<dots> = (heap w a)\<lparr>inbox := x\<rparr>" by (rule publish_loop_frame)
  finally show ?thesis by (simp add: publish_message_def pl Let_def)
qed

text \<open>A role whose inbox is left as it was is left as it was.\<close>

lemma publish_message_unchanged:
  assumes "inbox (heap (snd (snd (publish_message w m))) a) = inbox (heap w a)"
  shows "heap (snd (snd (publish_message w m))) a = heap w a"
proof -
  have "heap (snd (snd (publish_message w m))) a
          = (heap (snd (snd (publish_message w m))) a)\<lparr>inbox := inbox (heap w a)\<rparr>"
    using assms by (metis role.surjective role.update_convs(4))
  also have "\<dots> = heap w a" by (simp add: publish_message_frame)
  finally show ?thesis .
qed

section \<open>Idleness and rounds\<close>

lemma is_idle_loop_all: "is_idle_loop h rs = (\<forall>r \<in> set rs. role_is_idle (h r))"
  by (induction rs) auto


lemma run_rounds_Suc_None:
  assumes "g (dict_values (roles w)) w = (None, w1)"
  shows "run_rounds g (Suc n) w =
           (fst (run_rounds g n w1),
            map Call (dict_values (roles w)) @ Await (dict_values (roles w)) #
              Log (Info (''is idle: '' @ str_bool (is_idle w1))) # fst (snd (run_rounds g n w1)),
            snd (snd (run_rounds g n w1)))"
  by (simp add: assms Let_def split: prod.splits)

lemma run_rounds_Suc_Some:
  assumes "g (dict_values (roles w)) w = (Some x, w1)"
  shows "run_rounds g (Suc n) w =
           (Some x, map Call (dict_values (roles w)) @ [Await (dict_values (roles w))], w1)"
  by (simp add: assms Let_def)




section \<open>What every operation keeps\<close>

lemma tables_ok_set_subscribed_tags: "tables_ok w \<Longrightarrow> tables_ok (set_subscribed_tags w obj t)"
  by (auto simp: tables_ok_def set_subscribed_tags_def dict_ok_set dict_keys_set)

lemma tables_ok_add_role:
  assumes "tables_ok w"
  shows "tables_ok (add_role w r)"
proof -
  have "set (dict_values (roles (add_role w r))) \<subseteq> insert r (set (dict_values (roles w)))"
    by (simp add: add_role_roles dict_values_set)
  with assms show ?thesis
    by (auto simp: tables_ok_def add_role_consumers dict_ok_set dict_keys_set)
qed

lemma tables_ok_add_roles: "tables_ok w \<Longrightarrow> tables_ok (add_roles w rs)"
  by (induction rs arbitrary: w) (simp_all add: tables_ok_add_role)

lemma tables_ok_publish_message: "tables_ok w \<Longrightarrow> tables_ok (snd (snd (publish_message w m)))"
  by (simp add: tables_ok_def publish_message_tables)

lemma tables_ok_run_rounds:
  assumes "keeps_tables_ok g"
  shows "tables_ok w \<Longrightarrow> tables_ok (snd (snd (run_rounds g n w)))"
proof (induction n arbitrary: w)
  case 0
  then show ?case by simp
next
  case (Suc n)
  obtain e w1 where g: "g (dict_values (roles w)) w = (e, w1)"
    by (cases "g (dict_values (roles w)) w")
  from assms Suc.prems have ok1: "tables_ok (snd (g (dict_values (roles w)) w))"
    unfolding keeps_tables_ok_def by blast
  then have ok1: "tables_ok w1" by (simp add: g)
  show ?case
  proof (cases e)
    case None
    from g None have "g (dict_values (roles w)) w = (None, w1)" by simp
    from run_rounds_Suc_None [of g w w1 n, OF this] Suc.IH [OF ok1] show ?thesis
      by simp
  next
    case (Some x)
    from g Some have "g (dict_values (roles w)) w = (Some x, w1)" by simp
    from run_rounds_Suc_Some [of g w x w1 n, OF this] ok1 show ?thesis
      by simp
  qed
qed

lemma tables_ok_apply_op:
  "keeps_tables_ok g \<Longrightarrow> tables_ok w \<Longrightarrow> tables_ok (apply_op g w opn)"
  by (cases opn)
     (simp_all add: tables_ok_add_role tables_ok_add_roles tables_ok_set_subscribed_tags
        tables_ok_publish_message tables_ok_run_rounds run_def)

lemma tables_ok_foldl:
  "keeps_tables_ok g \<Longrightarrow> tables_ok w \<Longrightarrow> tables_ok (foldl (apply_op g) w ops)"
  by (induction ops arbitrary: w) (simp_all add: tables_ok_apply_op)

lemma tables_ok_new: "tables_ok (new_environment h)"
  by (simp add: tables_ok_def new_environment_def dict_ok_def dict_values_def)

lemma tables_ok_one_entry:
  assumes "tables_ok w"
  shows "registry_has_one_entry w"
  unfolding registry_has_one_entry_def
proof
  fix r assume "r \<in> set (dict_values (roles w))"
  with assms have "r \<in> fst ` set (consumers w)" by (auto simp: tables_ok_def)
  then obtain t where "(r, t) \<in> set (consumers w)" by auto
  with assms have "filter (\<lambda>e. fst e = r) (consumers w) = [(r, t)]"
    by (simp add: tables_ok_def entries_single)
  then show "length (filter (\<lambda>e. fst e = r) (consumers w)) = 1" by simp
qed

section \<open>The claims\<close>

subsection \<open>Routing\<close>

text \<open>
  Claim C1. For an actor \<open>a\<close> that has the tag set \<open>t\<close> in the subscription table and a
  message \<open>m\<close>, \<open>publish_message\<close> puts \<open>m\<close> into the inbox of \<open>a\<close>, once, if and only if
  \<open>is_recipient m t\<close> holds; an actor whose tag set does not satisfy the predicate is left
  exactly as it was.
\<close>

theorem publish_delivers_iff_recipient:
  assumes "dict_ok (consumers w)" and "get_subscribed_tags w a = Tags t"
  shows "(inbox (heap (snd (snd (publish_message w m))) a) = inbox (heap w a) @ [m])
           = is_recipient m t
         \<and> (\<not> is_recipient m t \<longrightarrow> heap (snd (snd (publish_message w m))) a = heap w a)"
proof -
  from assms(2) have "dict_get (consumers w) a = Some t"
    by (simp add: get_subscribed_tags_def split: option.splits)
  then have mem: "(a, t) \<in> set (consumers w)" by (rule dict_get_SomeD)
  note ib = publish_message_inbox [OF assms(1) mem, of m]
  show ?thesis
  proof (cases "is_recipient m t")
    case True
    with ib show ?thesis by simp
  next
    case False
    with ib have same: "inbox (heap (snd (snd (publish_message w m))) a) = inbox (heap w a)"
      by simp
    from publish_message_unchanged [OF same] False same show ?thesis by simp
  qed
qed

theorem publish_delivers_iff_recipient_witness:
  "dict_ok (consumers w_team) \<and>
   get_subscribed_tags w_team 0 = Tags {''code''} \<and> is_recipient m_code {''code''} \<and>
   inbox (heap (snd (snd (publish_message w_team m_code))) 0) = inbox (heap w_team 0) @ [m_code] \<and>
   get_subscribed_tags w_team 1 = Tags {''design''} \<and> \<not> is_recipient m_code {''design''} \<and>
   heap (snd (snd (publish_message w_team m_code))) 1 = heap w_team 1"
proof -
  have ok: "dict_ok (consumers w_team)" by (simp add: dict_ok_def w_team_def)
  have t0: "get_subscribed_tags w_team 0 = Tags {''code''}"
    by (simp add: get_subscribed_tags_def dict_get_def w_team_def)
  have t1: "get_subscribed_tags w_team 1 = Tags {''design''}"
    by (simp add: get_subscribed_tags_def dict_get_def w_team_def)
  have r0: "is_recipient m_code {''code''}" by (simp add: m_code_def)
  have r1: "\<not> is_recipient m_code {''design''}" by (simp add: m_code_def)
  from publish_delivers_iff_recipient [OF ok t0, of m_code]
       publish_delivers_iff_recipient [OF ok t1, of m_code] ok t0 t1 r0 r1
  show ?thesis by simp
qed

text \<open>
  Claim C2. In every state and for every message, \<open>publish_message\<close> returns true. It logs
  the message, and when no entry of the subscription table matches (in particular when
  nothing is registered) it logs the warning that the message has no recipients; the
  operation has no failing branch.
\<close>

theorem publish_always_true:
  "fst (publish_message w m) = True \<and>
   fst (snd (publish_message w m)) =
     Info (''publish_message: '' @ dump m) #
       (if \<exists>e \<in> set (consumers w). is_recipient m (snd e) then []
        else [Warning (''Message no recipients: '' @ dump m)])"
proof -
  obtain h fo where pl: "publish_loop m (consumers w) (heap w, False) = (h, fo)"
    by (cases "publish_loop m (consumers w) (heap w, False)")
  have "fo = snd (publish_loop m (consumers w) (heap w, False))" by (simp add: pl)
  then have "fo = (\<exists>e \<in> set (consumers w). is_recipient m (snd e))"
    by (simp add: publish_loop_found)
  then show ?thesis by (simp add: publish_message_def pl Let_def)
qed

theorem publish_always_true_witness:
  "consumers (new_environment h_team) = [] \<and>
   fst (publish_message (new_environment h_team) m_code) = True \<and>
   fst (snd (publish_message (new_environment h_team) m_code)) =
     [Info ''publish_message: write code'', Warning ''Message no recipients: write code'']"
  using publish_always_true [of "new_environment h_team" m_code]
  by (simp add: new_environment_def m_code_def)

subsection \<open>Registry\<close>

text \<open>
  Claim C3. Registration is last-write-wins: when \<open>a1\<close> and \<open>a2\<close> have the same profile,
  after \<open>add_role a1\<close> and then \<open>add_role a2\<close> the lookup of that profile gives \<open>a2\<close>. The
  second registration has no failing branch.
\<close>

theorem add_role_last_write_wins:
  assumes "profile (heap w a1) = profile (heap w a2)"
  shows "get_role (add_role (add_role w a1) a2) (profile (heap w a2)) = Some a2"
  by (simp add: get_role_def add_role_roles dict_get_set add_role_profile)

theorem add_role_last_write_wins_witness:
  "profile (heap (new_environment h_same) 0) = profile (heap (new_environment h_same) 1) \<and>
   get_role (add_role (add_role (new_environment h_same) 0) 1) ''Engineer'' = Some 1"
  using add_role_last_write_wins [of "new_environment h_same" 0 1]
  by (simp add: new_environment_def h_same_def)

text \<open>
  Claim C4. \<open>is_idle\<close> is true if and only if every role in the registry has its own idle
  flag set: it is true when the registry is empty, and one role that is not idle makes
  it false.
\<close>

theorem is_idle_iff_all_idle:
  "(is_idle w = (\<forall>r \<in> set (dict_values (roles w)). role_is_idle (heap w r))) \<and>
   (roles w = [] \<longrightarrow> is_idle w)"
  by (simp add: is_idle_def is_idle_loop_all dict_values_def)

theorem is_idle_iff_all_idle_witness:
  "1 \<in> set (dict_values (roles w_team)) \<and> \<not> role_is_idle (heap w_team 1) \<and> \<not> is_idle w_team \<and>
   roles (new_environment h_team) = [] \<and> is_idle (new_environment h_team)"
  using is_idle_iff_all_idle [of w_team] is_idle_iff_all_idle [of "new_environment h_team"]
  by (simp add: w_team_def new_environment_def h_team_def dict_values_def)

text \<open>
  Claim C5. For a name that is not a key of the registry \<open>get_role\<close> returns the sentinel
  \<open>None\<close>, and for a registered name it returns the stored role; the lookup has no
  failing branch.
\<close>

theorem get_role_sentinel:
  "(name \<notin> fst ` set (roles w) \<longrightarrow> get_role w name = None) \<and>
   (dict_ok (roles w) \<and> (name, r) \<in> set (roles w) \<longrightarrow> get_role w name = Some r)"
  by (auto simp: get_role_def dict_get_None dict_get_in)

theorem get_role_sentinel_witness:
  "''Tester'' \<notin> fst ` set (roles w_team) \<and> get_role w_team ''Tester'' = None \<and>
   dict_ok (roles w_team) \<and> (''Architect'', 1) \<in> set (roles w_team) \<and>
   get_role w_team ''Architect'' = Some 1"
  using get_role_sentinel [where name = "''Tester''" and w = w_team]
    get_role_sentinel [where name = "''Architect''" and w = w_team and r = 1]
  by (simp add: w_team_def dict_ok_def)

subsection \<open>Subscription table\<close>

text \<open>
  Claim C6. \<open>set_subscribed_tags\<close> replaces: after setting \<open>t1\<close> and then \<open>t2\<close> for the same
  actor, \<open>get_subscribed_tags\<close> reads exactly \<open>t2\<close>, the table holds the one entry \<open>t2\<close> for
  the actor, and \<open>publish_message\<close> delivers to the actor exactly the messages that \<open>t2\<close>
  makes it a recipient of.
\<close>

theorem set_subscribed_tags_replaces:
  assumes "dict_ok (consumers w)"
  shows "get_subscribed_tags (set_subscribed_tags (set_subscribed_tags w a t1) a t2) a = Tags t2 \<and>
         filter (\<lambda>e. fst e = a) (consumers (set_subscribed_tags (set_subscribed_tags w a t1) a t2))
           = [(a, t2)] \<and>
         (inbox (heap (snd (snd (publish_message
                    (set_subscribed_tags (set_subscribed_tags w a t1) a t2) m))) a)
            = inbox (heap w a) @ [m]) = is_recipient m t2"
proof -
  let ?w = "set_subscribed_tags (set_subscribed_tags w a t1) a t2"
  have ok: "dict_ok (consumers ?w)"
    using assms by (simp add: set_subscribed_tags_def dict_ok_set)
  have d: "dict_get (consumers ?w) a = Some t2"
    by (simp add: set_subscribed_tags_def dict_get_set)
  then have g: "get_subscribed_tags ?w a = Tags t2"
    by (simp add: get_subscribed_tags_def)
  have f: "filter (\<lambda>e. fst e = a) (consumers ?w) = [(a, t2)]"
    using assms by (simp add: set_subscribed_tags_def entries_set dict_ok_set)
  have h: "heap ?w = heap w" by (simp add: set_subscribed_tags_def)
  from publish_message_inbox [OF ok dict_get_SomeD [OF d], of m] h g f show ?thesis by simp
qed

theorem set_subscribed_tags_replaces_witness:
  "dict_ok (consumers w_team) \<and>
   get_subscribed_tags (set_subscribed_tags (set_subscribed_tags w_team 0 {''test''}) 0 {''code''}) 0
     = Tags {''code''} \<and>
   \<not> is_recipient m_test {''code''} \<and>
   inbox (heap (snd (snd (publish_message
       (set_subscribed_tags (set_subscribed_tags w_team 0 {''test''}) 0 {''code''}) m_test))) 0)
     \<noteq> inbox (heap w_team 0) @ [m_test] \<and>
   is_recipient m_code {''code''} \<and>
   inbox (heap (snd (snd (publish_message
       (set_subscribed_tags (set_subscribed_tags w_team 0 {''test''}) 0 {''code''}) m_code))) 0)
     = inbox (heap w_team 0) @ [m_code]"
proof -
  have ok: "dict_ok (consumers w_team)" by (simp add: dict_ok_def w_team_def)
  have r0: "is_recipient m_code {''code''}" by (simp add: m_code_def)
  have r1: "\<not> is_recipient m_test {''code''}" by (simp add: m_test_def)
  from set_subscribed_tags_replaces [OF ok, of 0 "{''test''}" "{''code''}" m_test]
       set_subscribed_tags_replaces [OF ok, of 0 "{''test''}" "{''code''}" m_code] ok r0 r1
  show ?thesis by simp
qed

subsection \<open>The invariant of the two tables\<close>

text \<open>
  Claim C7, as amended. After every sequence of \<open>add_role\<close>, \<open>add_roles\<close>,
  \<open>set_subscribed_tags\<close>, \<open>publish_message\<close> and \<open>run\<close> on a new environment, every role
  present in the registry has exactly one entry in the subscription table, provided the
  work of the actors during \<open>run\<close> keeps the tables well-formed. The converse part of
  the stated invariant is not kept: the subscription table may hold an entry for a role
  that is not, or no longer, in the registry.
\<close>

theorem registered_roles_have_one_entry:
  assumes "keeps_tables_ok g"
  shows "registry_has_one_entry (apply_ops g (new_environment h) ops)"
  unfolding apply_ops_def
  by (rule tables_ok_one_entry [OF tables_ok_foldl [OF assms tables_ok_new]])

theorem registered_roles_have_one_entry_witness:
  "keeps_tables_ok g_finish \<and>
   registry_has_one_entry (apply_ops g_finish (new_environment h_same)
     [AddRole 0, AddRole 1, SetSubscribedTags 2 {}, AddRoles [3, 0], PublishMessage m_code, Run 2])"
proof -
  have k: "keeps_tables_ok g_finish"
    by (simp add: keeps_tables_ok_def g_finish_def tables_ok_def)
  from registered_roles_have_one_entry [OF k] k show ?thesis by simp
qed

text \<open>
  The invariant as stated fails after two registrations under one profile: role 0 keeps
  its entry in the subscription table and is no longer in the registry.
\<close>

theorem table_invariant_counterexample:
  "\<not> table_invariant (apply_ops g_none (new_environment h_same) [AddRole 0, AddRole 1])"
  by (simp add: table_invariant_def subscribed_are_registered_def apply_ops_def
      add_role_roles add_role_consumers add_role_heap new_environment_def h_same_def
      dict_set_def dict_values_def set_env_def)

subsection \<open>Registration of an empty profile\<close>

text \<open>
  Claim C8, as amended. \<open>add_role\<close> does not look at the profile: a role whose profile is
  the empty string is registered like any other, under the empty key, with its tags in
  the subscription table and its back-reference installed.
\<close>

theorem add_role_accepts_empty_profile:
  assumes "profile (heap w r) = []"
  shows "get_role (add_role w r) [] = Some r \<and>
         get_subscribed_tags (add_role w r) r = Tags (subscribed_tags (heap w r)) \<and>
         has_env (heap (add_role w r) r)"
  using assms
  by (simp add: get_role_def add_role_roles add_role_consumers add_role_heap dict_get_set
      get_subscribed_tags_def set_env_def)

theorem add_role_accepts_empty_profile_witness:
  "profile (heap (w_team\<lparr>heap := h_blank\<rparr>) 3) = [] \<and>
   get_role (add_role (w_team\<lparr>heap := h_blank\<rparr>) 3) [] = Some 3 \<and>
   get_subscribed_tags (add_role (w_team\<lparr>heap := h_blank\<rparr>) 3) 3 = Tags {}"
proof -
  have p: "profile (heap (w_team\<lparr>heap := h_blank\<rparr>) 3) = []" by (simp add: h_blank_def)
  have t: "subscribed_tags (heap (w_team\<lparr>heap := h_blank\<rparr>) 3) = {}" by (simp add: h_blank_def)
  from add_role_accepts_empty_profile [OF p] p t show ?thesis by simp
qed

text \<open>
  Registering a role with the empty profile in a new environment is not rejected: the
  registry, empty before, holds the role afterwards.
\<close>

theorem add_role_rejects_empty_profile_counterexample:
  "profile (heap (new_environment h_blank) 0) = [] \<and>
   roles (new_environment h_blank) = [] \<and>
   roles (add_role (new_environment h_blank) 0) = [([], 0)]"
  by (simp add: h_blank_def new_environment_def add_role_roles dict_set_def)

subsection \<open>Rounds\<close>




subsection \<open>A superseded role\<close>

text \<open>
  Claim C10. When \<open>a2\<close> is registered with the profile of an earlier, different role \<open>a1\<close>,
  the lookup of the profile gives \<open>a2\<close>, and \<open>a1\<close> keeps its entry in the subscription
  table: a message that its tags make it a recipient of is still delivered to \<open>a1\<close>.
\<close>

theorem superseded_role_still_receives:
  assumes "a1 \<noteq> a2" and "profile (heap w a1) = profile (heap w a2)"
    and "dict_ok (consumers w)"
  shows "get_role (add_role (add_role w a1) a2) (profile (heap w a1)) = Some a2 \<and>
         get_subscribed_tags (add_role (add_role w a1) a2) a1 = Tags (subscribed_tags (heap w a1)) \<and>
         (is_recipient m (subscribed_tags (heap w a1)) \<longrightarrow>
            inbox (heap (snd (snd (publish_message (add_role (add_role w a1) a2) m))) a1)
              = inbox (heap w a1) @ [m])"
proof -
  let ?w = "add_role (add_role w a1) a2"
  have ok: "dict_ok (consumers ?w)"
    using assms(3) by (simp add: add_role_consumers dict_ok_set)
  have g: "dict_get (consumers ?w) a1 = Some (subscribed_tags (heap w a1))"
    using assms(1) by (simp add: add_role_consumers dict_get_set)
  have r: "get_role ?w (profile (heap w a1)) = Some a2"
    using assms(2) by (simp add: get_role_def add_role_roles dict_get_set add_role_profile)
  have i: "inbox (heap ?w a1) = inbox (heap w a1)" by (simp add: add_role_inbox)
  from publish_message_inbox [OF ok dict_get_SomeD [OF g], of m] i r g
  show ?thesis by (simp add: get_subscribed_tags_def)
qed

theorem superseded_role_still_receives_witness:
  "(0::ref) \<noteq> 1 \<and>
   profile (heap (new_environment h_same) 0) = profile (heap (new_environment h_same) 1) \<and>
   dict_ok (consumers (new_environment h_same)) \<and>
   get_role (add_role (add_role (new_environment h_same) 0) 1) ''Engineer'' = Some 1 \<and>
   get_subscribed_tags (add_role (add_role (new_environment h_same) 0) 1) 0 = Tags {''code''} \<and>
   is_recipient m_code {''code''} \<and>
   inbox (heap (snd (snd (publish_message (add_role (add_role (new_environment h_same) 0) 1)
     m_code))) 0) = [m_code]"
proof -
  have ne: "(0::ref) \<noteq> 1" by simp
  have pr: "profile (heap (new_environment h_same) 0) = profile (heap (new_environment h_same) 1)"
    by (simp add: new_environment_def h_same_def)
  have ok: "dict_ok (consumers (new_environment h_same))"
    by (simp add: new_environment_def dict_ok_def)
  have v: "profile (heap (new_environment h_same) 0) = ''Engineer''"
    "subscribed_tags (heap (new_environment h_same) 0) = {''code''}"
    "inbox (heap (new_environment h_same) 0) = []"
    by (simp_all add: new_environment_def h_same_def)
  have r0: "is_recipient m_code {''code''}" by (simp add: m_code_def)
  from superseded_role_still_receives [OF ne pr ok, of m_code] ne pr ok r0
  show ?thesis by (simp add: v)
qed

end
